theory Spec2Isabelle
  imports Main "HOL-Library.Finite_Map"
begin

section \<open>JavaScript values and objects\<close>

text \<open>
  The entity engine (\<^verbatim>\<open>useEntities\<close>, with \<^verbatim>\<open>replay\<close>, \<^verbatim>\<open>emit\<close> and the sync handlers
  before it) works on plain JavaScript data. A value is \<^verbatim>\<open>undefined\<close>, \<^verbatim>\<open>null\<close>, a
  boolean, a number, a string, an array or an object. An object is a finite map from
  property names to values, so that equality of values in HOL is the deep, structural
  equality of Ramda's \<^verbatim>\<open>equals\<close>, which does not look at the order of properties.
  Numbers are integers here: no claim depends on floating point.
\<close>

datatype val = VUndefined | VNull | VBool bool | VNum int | VStr string
  | VArr "val list" | VObj "(string, val) fmap"

type_synonym obj = "(string, val) fmap"

datatype error = TypeError | Error string | Thrown val

text \<open>\<^verbatim>\<open>o[k]\<close> on an object: a missing property reads as \<^verbatim>\<open>undefined\<close>.\<close>

definition jsget :: "obj \<Rightarrow> string \<Rightarrow> val" where
  "jsget m k = (case fmlookup m k of None \<Rightarrow> VUndefined | Some v \<Rightarrow> v)"

text \<open>
  \<^verbatim>\<open>previous[field]\<close> where \<^verbatim>\<open>previous\<close> is an entity or \<^verbatim>\<open>undefined\<close> (the value a sync
  without data hands on): reading a property of \<^verbatim>\<open>undefined\<close> raises a TypeError.
\<close>

definition get_member :: "obj option \<Rightarrow> string \<Rightarrow> error + val" where
  "get_member previous k = (case previous of None \<Rightarrow> Inl TypeError | Some e \<Rightarrow> Inr (jsget e k))"

text \<open>
  The spread \<^verbatim>\<open>{ ...v }\<close>: the own properties of an object; nothing for \<^verbatim>\<open>undefined\<close>,
  \<^verbatim>\<open>null\<close>, booleans and numbers. The index properties that spreading a string or an
  array would give are left out: \<^verbatim>\<open>attributes\<close> and \<^verbatim>\<open>relationships\<close> of an entity are
  objects.
\<close>

fun spread :: "val \<Rightarrow> obj" where
  "spread (VObj m) = m"
| "spread _ = fmempty"

text \<open>JavaScript truthiness, for \<^verbatim>\<open>if (v)\<close>, \<^verbatim>\<open>!v\<close> and \<^verbatim>\<open>v || w\<close>.\<close>

fun truthy :: "val \<Rightarrow> bool" where
  "truthy VUndefined = False"
| "truthy VNull = False"
| "truthy (VBool b) = b"
| "truthy (VNum n) = (n \<noteq> 0)"
| "truthy (VStr s) = (s \<noteq> [])"
| "truthy (VArr xs) = True"
| "truthy (VObj m) = True"

text \<open>
  A field map written as a literal or returned by a transaction is used through
  \<^verbatim>\<open>Object.entries\<close>; it is kept as its list of entries, in property order. The
  object it stands for has the last entry of a key, as repeated assignment would.
\<close>

type_synonym entries = "(string \<times> val) list"

definition of_entries :: "entries \<Rightarrow> obj" where
  "of_entries es = fold (\<lambda>(k, v) m. fmupd k v m) es fmempty"

section \<open>Emit\<close>

text \<open>
  \<^verbatim>\<open>emit(state, data)\<close> takes \<^verbatim>\<open>id\<close>, \<^verbatim>\<open>type\<close> and \<^verbatim>\<open>meta\<close> off \<^verbatim>\<open>data\<close>, spreads its
  \<^verbatim>\<open>attributes\<close>, its \<^verbatim>\<open>relationships\<close> and the remaining properties into one field
  map (later spreads win) and assigns every entry to the state. \<^verbatim>\<open>data\<close> defaults to
  the empty object when it is \<^verbatim>\<open>undefined\<close>.
\<close>

definition emit_fields :: "obj \<Rightarrow> obj" where
  "emit_fields data =
     spread (jsget data ''attributes'') ++\<^sub>f spread (jsget data ''relationships'') ++\<^sub>f
     fmdrop ''id'' (fmdrop ''type'' (fmdrop ''meta''
       (fmdrop ''attributes'' (fmdrop ''relationships'' data))))"

definition emit :: "obj \<Rightarrow> obj option \<Rightarrow> obj" where
  "emit state data = (case data of None \<Rightarrow> state | Some d \<Rightarrow> state ++\<^sub>f emit_fields d)"

section \<open>Transaction log and replay\<close>

text \<open>
  Modelled from the spec: \<^verbatim>\<open>flattenEntity\<close> (\<^verbatim>\<open>utils/flattenEntity\<close>) is imported by the
  engine and by the filter parser but is not among the sources. The spec says that replay
  clones and flattens the baseline into a working snapshot, and that filters are predicates
  over flattened records. An entity is the JSON:API record that \<^verbatim>\<open>emit\<close> and
  \<^verbatim>\<open>createEntity\<close> take apart (\<^verbatim>\<open>id\<close>, \<^verbatim>\<open>type\<close>, \<^verbatim>\<open>meta\<close>, \<^verbatim>\<open>attributes\<close>,
  \<^verbatim>\<open>relationships\<close>); flattening lifts the properties of \<^verbatim>\<open>attributes\<close> and
  \<^verbatim>\<open>relationships\<close> to the top level beside the remaining ones. \<^verbatim>\<open>undefined\<close> flattens
  to the empty object: \<^verbatim>\<open>checkout\<close> replays against the \<^verbatim>\<open>value\<close> of a sync that may have
  returned no data.
\<close>

definition flattenEntity :: "obj option \<Rightarrow> obj" where
  "flattenEntity entity = (case entity of
       None \<Rightarrow> fmempty
     | Some e \<Rightarrow>
         spread (jsget e ''attributes'') ++\<^sub>f spread (jsget e ''relationships'') ++\<^sub>f
         fmdrop ''attributes'' (fmdrop ''relationships'' e))"

text \<open>
  Ramda's \<^verbatim>\<open>clone\<close> is a deep copy. Values are immutable in HOL, so a copy is the value
  itself; the address a copy lives at is part of the store model further down.
\<close>

definition clone :: "obj \<Rightarrow> obj" where
  "clone m = m"

definition flatten :: "obj option \<Rightarrow> obj" where
  "flatten = clone \<circ> flattenEntity"

text \<open>
  A transaction maps the working snapshot to the field map it proposes. \<^verbatim>\<open>fieldSet\<close> is
  a JavaScript \<^verbatim>\<open>Set\<close>: adding a member twice keeps one, in insertion order.
\<close>

type_synonym transaction = "obj \<Rightarrow> entries"

definition set_add :: "string \<Rightarrow> string list \<Rightarrow> string list" where
  "set_add k ks = (if k \<in> set ks then ks else ks @ [k])"

text \<open>
  The inner \<^verbatim>\<open>forEach\<close> of \<^verbatim>\<open>replay\<close>, over the entries of one proposed field map: an
  entry whose value is not structurally equal to the snapshot's is written and its key
  recorded.
\<close>

fun apply_entries :: "entries \<Rightarrow> obj \<times> string list \<Rightarrow> obj \<times> string list" where
  "apply_entries [] (current, fieldSet) = (current, fieldSet)"
| "apply_entries ((key, value) # es) (current, fieldSet) =
     (if jsget current key \<noteq> value
      then apply_entries es (fmupd key value current, set_add key fieldSet)
      else apply_entries es (current, fieldSet))"

text \<open>The outer \<^verbatim>\<open>forEach\<close>: each transaction sees the snapshot its predecessors left.\<close>

fun run_transactions :: "transaction list \<Rightarrow> obj \<times> string list \<Rightarrow> obj \<times> string list" where
  "run_transactions [] st = st"
| "run_transactions (tx # txs) (current, fieldSet) =
     run_transactions txs (apply_entries (tx current) (current, fieldSet))"

text \<open>
  The last \<^verbatim>\<open>forEach\<close>, over \<^verbatim>\<open>fieldSet\<close>: a recorded field is kept when its final
  value differs from \<^verbatim>\<open>previous[field]\<close>, the property of the baseline as it was passed in.
\<close>

fun changed_fields :: "obj option \<Rightarrow> obj \<Rightarrow> string list \<Rightarrow> obj \<Rightarrow> error + obj" where
  "changed_fields previous current [] fields = Inr fields"
| "changed_fields previous current (field # fs) fields =
     (case get_member previous field of
        Inl e \<Rightarrow> Inl e
      | Inr pv \<Rightarrow>
          changed_fields previous current fs
            (if jsget current field \<noteq> pv then fmupd field (jsget current field) fields
             else fields))"

definition replay :: "obj option \<Rightarrow> transaction list \<Rightarrow> error + obj" where
  "replay previous transactions =
     (case run_transactions transactions (flatten previous, []) of
        (current, fieldSet) \<Rightarrow> changed_fields previous current fieldSet fmempty)"


text \<open>
  Two transactions used as concrete inputs below: \<^verbatim>\<open>revise(ref, { [k]: v })\<close> stores the
  constant function \<^verbatim>\<open>() => fields\<close>, and a counter is bumped by a transaction that reads
  the snapshot, \<^verbatim>\<open>s => ({ [k]: typeof s[k] === 'number' ? s[k] + 1 : 1 })\<close>.
\<close>

definition set_field :: "string \<Rightarrow> val \<Rightarrow> transaction" where
  "set_field k v s = [(k, v)]"

definition increment :: "string \<Rightarrow> transaction" where
  "increment k s = [(k, case jsget s k of VNum n \<Rightarrow> VNum (n + 1) | _ \<Rightarrow> VNum 1)]"

text \<open>
  Three baselines: a flat field map, as the live state that \<^verbatim>\<open>checkoutCollection\<close> replays
  against, and two entities as \<^verbatim>\<open>farm[shortName].create\<close> returns them, with their fields
  under \<^verbatim>\<open>attributes\<close> (\<^verbatim>\<open>createEntity\<close> reads \<^verbatim>\<open>init.attributes\<close> and hands \<^verbatim>\<open>init\<close> to
  the queue, where the first commit finds it as \<^verbatim>\<open>previous\<close>).
\<close>

definition counter_entity :: obj where
  "counter_entity = fmupd ''n'' (VNum 0) fmempty"

definition nested_entity :: obj where
  "nested_entity =
     fmupd ''id'' (VStr ''a1'') (fmupd ''type'' (VStr ''log--activity'')
       (fmupd ''attributes'' (VObj (fmupd ''x'' (VNum 1) fmempty)) fmempty))"

definition counted_entity :: obj where
  "counted_entity =
     fmupd ''id'' (VStr ''a1'') (fmupd ''type'' (VStr ''log--activity'')
       (fmupd ''attributes'' (VObj (fmupd ''n'' (VNum 5) fmempty)) fmempty))"

section \<open>Replay in a store\<close>

text \<open>
  To say that replay leaves its baseline alone, objects get addresses. The store is the
  list of the objects allocated so far; a reference is an index into it. \<^verbatim>\<open>flattenEntity\<close>
  builds a new object and \<^verbatim>\<open>clone\<close> copies it into another one, which is \<^verbatim>\<open>current\<close>;
  every \<^verbatim>\<open>current[key] = value\<close> is a write at that address, and \<^verbatim>\<open>previous[field]\<close> reads
  the baseline's address. Property values are immutable trees, and replay assigns top-level
  properties only. The delta is returned by value.
\<close>

type_synonym store = "obj list"

definition alloc :: "store \<Rightarrow> obj \<Rightarrow> store \<times> nat" where
  "alloc h m = (h @ [m], length h)"

definition deref :: "store \<Rightarrow> nat option \<Rightarrow> obj option" where
  "deref h p = map_option (\<lambda>a. h ! a) p"

definition flatten_at :: "store \<Rightarrow> nat option \<Rightarrow> store \<times> nat" where
  "flatten_at h previous =
     (case alloc h (flattenEntity (deref h previous)) of
        (h1, a) \<Rightarrow> alloc h1 (clone (h1 ! a)))"

fun apply_entries_at :: "nat \<Rightarrow> entries \<Rightarrow> store \<times> string list \<Rightarrow> store \<times> string list" where
  "apply_entries_at current [] (h, fieldSet) = (h, fieldSet)"
| "apply_entries_at current ((key, value) # es) (h, fieldSet) =
     (if jsget (h ! current) key \<noteq> value
      then apply_entries_at current es
             (h[current := fmupd key value (h ! current)], set_add key fieldSet)
      else apply_entries_at current es (h, fieldSet))"

fun run_transactions_at ::
  "nat \<Rightarrow> transaction list \<Rightarrow> store \<times> string list \<Rightarrow> store \<times> string list" where
  "run_transactions_at current [] st = st"
| "run_transactions_at current (tx # txs) (h, fieldSet) =
     run_transactions_at current txs (apply_entries_at current (tx (h ! current)) (h, fieldSet))"

definition replay_at :: "store \<Rightarrow> nat option \<Rightarrow> transaction list \<Rightarrow> store \<times> (error + obj)" where
  "replay_at h previous transactions =
     (case flatten_at h previous of
        (h1, current) \<Rightarrow>
          (case run_transactions_at current transactions (h1, []) of
             (h2, fieldSet) \<Rightarrow>
               (h2, changed_fields (deref h2 previous) (h2 ! current) fieldSet fmempty)))"

section \<open>The engine's bookkeeping\<close>

text \<open>
  A listener registered with \<^verbatim>\<open>on\<close> is a callback that, given the value it is
  notified with, returns or throws. A listener set is a \<^verbatim>\<open>Set\<close>, iterated in insertion
  order.
\<close>

datatype outcome = Returned | Threw val

type_synonym listener = "val \<Rightarrow> outcome"

text \<open>
  The tasks that the engine pushes onto a revision's \<^verbatim>\<open>PromiseQueue\<close>, each with what its
  closure captures: \<^verbatim>\<open>() => init\<close> of \<^verbatim>\<open>createEntity\<close>; the update of \<^verbatim>\<open>add\<close> with its
  \<^verbatim>\<open>fields\<close>; the load sequence of \<^verbatim>\<open>checkout\<close> (cache read, then remote sync) with
  \<^verbatim>\<open>type\<close>, \<^verbatim>\<open>id\<close> and the transaction array it destructured from the revision; the
  task of \<^verbatim>\<open>commit\<close> with its own copy of the transaction array. Arrays of transactions
  are mutable and shared, so a task and a revision hold the address of an array.
\<close>

datatype task =
    InitTask obj
  | UpdateTask val
  | LoadTask val val nat
  | CommitTask nat

record revision =
  rev_entity :: string
  rev_type :: val
  rev_id :: string
  rev_state :: obj
  rev_transactions :: nat
  rev_queue :: "task list"
  rev_backupURI :: string
  rev_load :: "listener list"
  rev_sync :: "listener list"
  rev_dependencies :: "(nat \<times> string) list option"

record collection =
  col_entity :: string
  col_filter :: val
  col_state :: "nat list"
  col_load :: "listener list"
  col_sync :: "listener list"

text \<open>The calls to the collaborators (connection status, cache, backup) that a step makes.\<close>

datatype effect =
    StatusInProgress
  | GetRecords string val
  | BackupTransactions string obj
  | CacheEntity string obj

text \<open>
  The state of one \<^verbatim>\<open>useEntities\<close> instance. A reference is a number. \<^verbatim>\<open>revisions\<close> is
  the WeakMap from a reference to a revision object; revision objects are mutable and can be
  shared by two references (\<^verbatim>\<open>link\<close> sets the satellite's entry to the target's revision),
  so the map holds the address of the object and \<^verbatim>\<open>objects\<close> the object at each address.
  \<^verbatim>\<open>satellites\<close> holds \<^verbatim>\<open>state.value\<close> of each linked reference: a reference or
  \<^verbatim>\<open>null\<close>. \<^verbatim>\<open>arrays\<close> is the store of transaction arrays.
\<close>

record engine =
  revisions :: "nat \<rightharpoonup> nat"
  objects :: "nat \<rightharpoonup> revision"
  collections :: "nat \<rightharpoonup> collection"
  satellites :: "nat \<rightharpoonup> nat option"
  arrays :: "transaction list list"
  next_ref :: nat
  uuids_used :: nat
  effects :: "effect list"

text \<open>
  What the engine imports and calls: the nomenclature tables, \<^verbatim>\<open>validate\<close> and \<^verbatim>\<open>v4\<close> of
  the uuid package (the n-th call of \<^verbatim>\<open>uuidv4\<close> returns \<^verbatim>\<open>uuidv4 n\<close>), \<^verbatim>\<open>create\<close> and
  \<^verbatim>\<open>update\<close> of \<^verbatim>\<open>farm[shortName]\<close>, \<^verbatim>\<open>restoreTransactions\<close> of the backup module and the
  route that \<^verbatim>\<open>identifyRoute\<close> finds. None of them is among the sources; they are
  parameters.
\<close>

record env =
  memoized :: "string \<rightharpoonup> string"
  shortName :: "string \<rightharpoonup> string"
  valid_uuid :: "string \<Rightarrow> bool"
  uuidv4 :: "nat \<Rightarrow> string"
  farm_create :: "string \<Rightarrow> string \<Rightarrow> val \<Rightarrow> obj"
  farm_update :: "string \<Rightarrow> obj option \<Rightarrow> obj \<Rightarrow> obj"
  restoreTransactions :: "string \<Rightarrow> val \<Rightarrow> string \<Rightarrow> string \<Rightarrow> string \<times> transaction list"
  identifyRoute :: string

text \<open>
  \<^verbatim>\<open>validate(v)\<close> is false for everything that is not a string. \<^verbatim>\<open>is(Object, v)\<close> of
  Ramda holds for objects and arrays. \<^verbatim>\<open>v?.k\<close> is \<^verbatim>\<open>undefined\<close> on \<^verbatim>\<open>undefined\<close> and
  \<^verbatim>\<open>null\<close>; \<^verbatim>\<open>v.k\<close> raises a TypeError there. The own properties of strings and arrays
  (\<^verbatim>\<open>length\<close>, indices) are not modelled: the keys read are \<^verbatim>\<open>id\<close>, \<^verbatim>\<open>type\<close> and names
  of metadata.
\<close>

definition validate :: "env \<Rightarrow> val \<Rightarrow> bool" where
  "validate E v = (case v of VStr s \<Rightarrow> valid_uuid E s | _ \<Rightarrow> False)"

fun is_Object :: "val \<Rightarrow> bool" where
  "is_Object (VObj m) = True"
| "is_Object (VArr xs) = True"
| "is_Object _ = False"

fun opt_get :: "val \<Rightarrow> string \<Rightarrow> val" where
  "opt_get (VObj m) k = jsget m k"
| "opt_get _ k = VUndefined"

fun dot_get :: "val \<Rightarrow> string \<Rightarrow> error + val" where
  "dot_get VUndefined k = Inl TypeError"
| "dot_get VNull k = Inl TypeError"
| "dot_get v k = Inr (opt_get v k)"

fun str_of :: "val \<Rightarrow> string" where
  "str_of (VStr s) = s"
| "str_of _ = []"

definition revision_of :: "engine \<Rightarrow> nat \<Rightarrow> revision option" where
  "revision_of e r = (case revisions e r of None \<Rightarrow> None | Some a \<Rightarrow> objects e a)"

section \<open>Creating and checking out entities\<close>

text \<open>
  \<^verbatim>\<open>createEntity(entity, type, id)\<close>. Reading \<^verbatim>\<open>shortName\<close> off a missing nomenclature entry
  raises a TypeError. The new revision's queue holds \<^verbatim>\<open>() => init\<close>; its transaction log
  is the array that \<^verbatim>\<open>restoreTransactions\<close> returned.
\<close>

definition createEntity :: "env \<Rightarrow> string \<Rightarrow> val \<Rightarrow> val \<Rightarrow> engine \<Rightarrow> error + (nat \<times> engine)" where
  "createEntity E entity type ident e =
     (case shortName E entity of
        None \<Rightarrow> Inl TypeError
      | Some sn \<Rightarrow>
          let id' = (if validate E ident then str_of ident else uuidv4 E (uuids_used e));
              init = farm_create E sn id' type;
              defaultFields =
                fmupd ''type'' type (fmupd ''id'' (VStr id') fmempty) ++\<^sub>f
                spread (jsget init ''attributes'') ++\<^sub>f spread (jsget init ''relationships'');
              reference = next_ref e;
              restored = restoreTransactions E entity type id' (identifyRoute E);
              revision = \<lparr> rev_entity = entity, rev_type = type, rev_id = id',
                rev_state = defaultFields, rev_transactions = length (arrays e),
                rev_queue = [InitTask init], rev_backupURI = fst restored,
                rev_load = [], rev_sync = [], rev_dependencies = None \<rparr>
          in Inr (reference,
               e\<lparr> revisions := (revisions e)(reference \<mapsto> reference),
                  objects := (objects e)(reference \<mapsto> revision),
                  arrays := arrays e @ [snd restored],
                  next_ref := Suc reference,
                  uuids_used := (if validate E ident then uuids_used e else Suc (uuids_used e)) \<rparr>))"

text \<open>\<^verbatim>\<open>queue.push(task)\<close> on the revision object at an address.\<close>

definition push_task :: "nat \<Rightarrow> task \<Rightarrow> engine \<Rightarrow> engine" where
  "push_task a t e =
     (case objects e a of
        None \<Rightarrow> e
      | Some revision \<Rightarrow> e\<lparr> objects := (objects e)(a \<mapsto> revision\<lparr> rev_queue := rev_queue revision @ [t] \<rparr>) \<rparr>)"

text \<open>
  \<^verbatim>\<open>checkoutCollection(entity, filter)\<close>, up to its \<^verbatim>\<open>return\<close>: the collection is recorded,
  the status set and the cache read issued at once; the sync and what follows are
  continuations of that read.
\<close>

definition checkoutCollection :: "env \<Rightarrow> string \<Rightarrow> val \<Rightarrow> engine \<Rightarrow> error + (nat \<times> engine)" where
  "checkoutCollection E entity fltr e =
     (case shortName E entity of
        None \<Rightarrow> Inl TypeError
      | Some sn \<Rightarrow>
          let reference = next_ref e;
              collection = \<lparr> col_entity = entity, col_filter = fltr, col_state = [],
                col_load = [], col_sync = [] \<rparr>
          in Inr (reference,
               e\<lparr> collections := (collections e)(reference \<mapsto> collection),
                  next_ref := Suc reference,
                  effects := effects e @ [StatusInProgress, GetRecords entity fltr] \<rparr>))"

text \<open>
  \<^verbatim>\<open>checkout(entity, type, id)\<close>. An unknown entity name throws. A filter object as second
  or third argument goes to \<^verbatim>\<open>checkoutCollection\<close>. Otherwise the entity is created, and when
  \<^verbatim>\<open>id\<close> does not validate the reference is returned at once; only for a valid \<^verbatim>\<open>id\<close> is
  the load task pushed.
\<close>

definition checkout :: "env \<Rightarrow> string \<Rightarrow> val \<Rightarrow> val \<Rightarrow> engine \<Rightarrow> error + (nat \<times> engine)" where
  "checkout E entity type ident e =
     (case memoized E entity of
        None \<Rightarrow> Inl (Error ''Checkout failed; invalid entity name'')
      | Some entity' \<Rightarrow>
          if entity' = [] then Inl (Error ''Checkout failed; invalid entity name'')
          else (case shortName E entity' of
             None \<Rightarrow> Inl TypeError
           | Some sn \<Rightarrow>
               if is_Object type then checkoutCollection E entity' type e
               else if is_Object ident then
                 checkoutCollection E entity'
                   (case type of VStr t \<Rightarrow> VObj (fmupd ''type'' type (spread ident)) | _ \<Rightarrow> ident) e
               else (case createEntity E entity' type ident e of
                  Inl err \<Rightarrow> Inl err
                | Inr (reference, e1) \<Rightarrow>
                    if \<not> validate E ident then Inr (reference, e1)
                    else Inr (reference,
                      push_task reference (LoadTask type ident (length (arrays e))) e1))))"

text \<open>What a task asks of the cache and of the remote when it runs.\<close>

fun reads_cache :: "task \<Rightarrow> bool" where
  "reads_cache (LoadTask t i a) = True"
| "reads_cache _ = False"

fun requests_sync :: "task \<Rightarrow> bool" where
  "requests_sync (LoadTask t i a) = True"
| "requests_sync (CommitTask a) = True"
| "requests_sync _ = False"

text \<open>
  \<^verbatim>\<open>add\<close> and \<^verbatim>\<open>append\<close>: a new entity with an update task, pushed onto a collection.
  \<^verbatim>\<open>append\<close> and \<^verbatim>\<open>drop\<close> are list functions of HOL, so the engine's functions are
  \<open>append_entity\<close> and \<open>drop_entity\<close> here, and \<^verbatim>\<open>splice\<close> is \<open>js_splice\<close>.
\<close>

definition add :: "env \<Rightarrow> string \<Rightarrow> val \<Rightarrow> val \<Rightarrow> engine \<Rightarrow> error + (nat \<times> engine)" where
  "add E entity type flds e =
     (case createEntity E entity type (opt_get flds ''id'') e of
        Inl err \<Rightarrow> Inl err
      | Inr (reference, e1) \<Rightarrow>
          Inr (reference,
            push_task reference (UpdateTask (if flds = VUndefined then VObj fmempty else flds)) e1))"

definition append_entity :: "env \<Rightarrow> nat \<Rightarrow> val \<Rightarrow> val \<Rightarrow> engine \<Rightarrow> error + (nat \<times> engine)" where
  "append_entity E collectionReference type flds e =
     (case collections e collectionReference of
        None \<Rightarrow> Inl TypeError
      | Some c \<Rightarrow>
          (case add E (col_entity c) type flds e of
             Inl err \<Rightarrow> Inl err
           | Inr (itemReference, e1) \<Rightarrow>
               Inr (itemReference,
                 e1\<lparr> collections := (collections e1)(collectionReference \<mapsto>
                       c\<lparr> col_state := col_state c @ [itemReference] \<rparr>) \<rparr>)))"

section \<open>Collections: drop\<close>

text \<open>
  \<^verbatim>\<open>Array.prototype.findIndex\<close> gives \<^verbatim>\<open>-1\<close> when no element satisfies the predicate.
  \<^verbatim>\<open>arr[i]\<close> is \<^verbatim>\<open>undefined\<close> outside the array. \<^verbatim>\<open>arr.splice(start, deleteCount)\<close>
  counts a negative \<^verbatim>\<open>start\<close> from the end of the array and clamps both arguments.
\<close>

fun findIndex_from :: "('a \<Rightarrow> bool) \<Rightarrow> 'a list \<Rightarrow> int \<Rightarrow> int" where
  "findIndex_from P [] i = - 1"
| "findIndex_from P (x # xs) i = (if P x then i else findIndex_from P xs (i + 1))"

definition findIndex :: "('a \<Rightarrow> bool) \<Rightarrow> 'a list \<Rightarrow> int" where
  "findIndex P xs = findIndex_from P xs 0"

definition js_index :: "'a list \<Rightarrow> int \<Rightarrow> 'a option" where
  "js_index xs i = (if 0 \<le> i \<and> i < int (length xs) then Some (xs ! nat i) else None)"

definition js_splice :: "int \<Rightarrow> nat \<Rightarrow> 'a list \<Rightarrow> 'a list" where
  "js_splice start deleteCount xs =
     (let len = int (length xs);
          from = nat (if start < 0 then max (len + start) 0 else min start len);
          count = min deleteCount (length xs - from)
      in take from xs @ drop (from + count) xs)"

text \<open>
  A member of a collection is the reference of an entity; \<^verbatim>\<open>item.id\<close> reads the \<^verbatim>\<open>id\<close>
  field of its live state.
\<close>

definition item_id :: "engine \<Rightarrow> nat \<Rightarrow> val" where
  "item_id e item =
     (case revision_of e item of None \<Rightarrow> VUndefined | Some revision \<Rightarrow> jsget (rev_state revision) ''id'')"

text \<open>
  \<^verbatim>\<open>drop(collectionReference, id)\<close>: the index found is used as it is, for the read and for
  the \<^verbatim>\<open>splice\<close>. The result is the dropped reference, or \<^verbatim>\<open>undefined\<close>.
\<close>

definition drop_entity :: "engine \<Rightarrow> nat \<Rightarrow> val \<Rightarrow> error + (nat option \<times> engine)" where
  "drop_entity e collectionReference ident =
     (case collections e collectionReference of
        None \<Rightarrow> Inl TypeError
      | Some c \<Rightarrow>
          let i = findIndex (\<lambda>item. item_id e item = ident) (col_state c);
              itemRef = js_index (col_state c) i
          in Inr (itemRef,
               e\<lparr> collections := (collections e)(collectionReference \<mapsto>
                     c\<lparr> col_state := js_splice i 1 (col_state c) \<rparr>) \<rparr>))"

section \<open>Revise and commit\<close>

text \<open>
  The second argument of \<^verbatim>\<open>revise\<close> is a function, which is the transaction, or an object
  of fields, which gives the transaction \<^verbatim>\<open>() => fields\<close>, or neither, which gives
  \<^verbatim>\<open>() => ({})\<close>.
\<close>

datatype tx_arg = TxFunction transaction | TxFields entries | TxOther

fun tx_of :: "tx_arg \<Rightarrow> transaction" where
  "tx_of (TxFunction f) = f"
| "tx_of (TxFields es) = (\<lambda>_. es)"
| "tx_of TxOther = (\<lambda>_. [])"

text \<open>
  \<^verbatim>\<open>revise(reference, transaction)\<close>: the transaction is applied to the live state, pushed
  onto the array that \<^verbatim>\<open>revision.transactions\<close> holds at this moment, backed up and
  emitted.
\<close>

definition revise :: "engine \<Rightarrow> nat \<Rightarrow> tx_arg \<Rightarrow> error + engine" where
  "revise e reference transaction =
     (case revisions e reference of
        None \<Rightarrow> Inl TypeError
      | Some a \<Rightarrow>
          (case objects e a of
             None \<Rightarrow> Inl TypeError
           | Some revision \<Rightarrow>
               let tx = tx_of transaction;
                   flds = of_entries (tx (rev_state revision));
                   log = rev_transactions revision
               in Inr (e\<lparr> arrays := (arrays e)[log := arrays e ! log @ [tx]],
                        effects := effects e @ [BackupTransactions (rev_backupURI revision) flds],
                        objects := (objects e)(a \<mapsto>
                          revision\<lparr> rev_state := emit (rev_state revision) (Some flds) \<rparr>) \<rparr>)))"

text \<open>
  \<^verbatim>\<open>commit(reference)\<close> for one entity: \<^verbatim>\<open>revisions.get(reference) ||
  revisions.get(unref(reference))\<close> finds the revision, directly or through a satellite. The
  log is copied into a new array, the revision gets a new empty array, and the task that
  holds the copy is pushed onto the queue.
\<close>

definition lookup_revision :: "engine \<Rightarrow> nat \<Rightarrow> nat option" where
  "lookup_revision e reference =
     (case revisions e reference of
        Some a \<Rightarrow> Some a
      | None \<Rightarrow> (case satellites e reference of Some (Some v) \<Rightarrow> revisions e v | _ \<Rightarrow> None))"

definition commit_entity :: "env \<Rightarrow> nat \<Rightarrow> engine \<Rightarrow> error + engine" where
  "commit_entity E reference e =
     (case lookup_revision e reference of
        None \<Rightarrow> Inl TypeError
      | Some a \<Rightarrow>
          (case objects e a of
             None \<Rightarrow> Inl TypeError
           | Some revision \<Rightarrow>
               let transactions = length (arrays e);
                   emptied = Suc (length (arrays e));
                   e1 = e\<lparr> arrays := arrays e @ [arrays e ! rev_transactions revision, []] \<rparr>
               in (case shortName E (rev_entity revision) of
                     None \<Rightarrow> Inl TypeError
                   | Some sn \<Rightarrow>
                       Inr (e1\<lparr> objects := (objects e)(a \<mapsto>
                              revision\<lparr> rev_transactions := emptied,
                                rev_queue := rev_queue revision @ [CommitTask transactions] \<rparr>) \<rparr>))))"

text \<open>
  Given a collection, \<^verbatim>\<open>commit\<close> maps itself over the members; an exception thrown while
  a member's task is being set up leaves the \<^verbatim>\<open>map\<close>.
\<close>

fun commit_all :: "env \<Rightarrow> nat list \<Rightarrow> engine \<Rightarrow> error + engine" where
  "commit_all E [] e = Inr e"
| "commit_all E (r # rs) e =
     (case commit_entity E r e of Inl err \<Rightarrow> Inl err | Inr e1 \<Rightarrow> commit_all E rs e1)"

definition commit :: "env \<Rightarrow> nat \<Rightarrow> engine \<Rightarrow> error + engine" where
  "commit E reference e =
     (case collections e reference of
        Some c \<Rightarrow> commit_all E (col_state c) e
      | None \<Rightarrow> commit_entity E reference e)"

text \<open>
  The task that \<^verbatim>\<open>commit\<close> queued, when the queue runs it with the result of its
  predecessor, up to the call of \<^verbatim>\<open>cacheEntity\<close>: it replays the array it holds against
  \<^verbatim>\<open>previous\<close>, emits the delta and merges it. The result is the delta, the merged
  entity and the engine. \<^verbatim>\<open>shortName\<close> is the one \<^verbatim>\<open>commit\<close> read for the revision's
  entity.
\<close>

definition commit_task ::
  "env \<Rightarrow> nat \<Rightarrow> nat \<Rightarrow> obj option \<Rightarrow> engine \<Rightarrow> error + (obj \<times> obj \<times> engine)" where
  "commit_task E a transactions previous e =
     (case objects e a of
        None \<Rightarrow> Inl TypeError
      | Some revision \<Rightarrow>
          (case shortName E (rev_entity revision) of
             None \<Rightarrow> Inl TypeError
           | Some sn \<Rightarrow>
               (case replay previous (arrays e ! transactions) of
                  Inl err \<Rightarrow> Inl err
                | Inr flds \<Rightarrow>
                    let nxt = farm_update E sn previous flds
                    in Inr (flds, nxt,
                         e\<lparr> effects := effects e @
                              [StatusInProgress, CacheEntity (rev_entity revision) nxt],
                            objects := (objects e)(a \<mapsto>
                              revision\<lparr> rev_state := emit (rev_state revision) (Some flds) \<rparr>) \<rparr>))))"

section \<open>Commit: the metadata splice\<close>

text \<open>
  The callback that \<^verbatim>\<open>commit\<close> maps over the responses of the dependent commits, keyed
  by relationship. \<^verbatim>\<open>response.meta?.remote?.meta?.attributes || {}\<close> reads \<^verbatim>\<open>meta\<close> off
  the response without a guard and the rest of the chain with one.
\<close>

definition remote_attributes :: "val \<Rightarrow> error + val" where
  "remote_attributes response =
     (case dot_get response ''meta'' of
        Inl err \<Rightarrow> Inl err
      | Inr m \<Rightarrow>
          let a = opt_get (opt_get (opt_get m ''remote'') ''meta'') ''attributes''
          in Inr (if truthy a then a else VObj fmempty))"

text \<open>
  Ramda's \<^verbatim>\<open>assoc(k, v, o)\<close> is a shallow copy of \<^verbatim>\<open>o\<close> with \<^verbatim>\<open>k\<close> set; a value without
  own properties gives the object with \<^verbatim>\<open>k\<close> alone.
\<close>

fun assoc :: "string \<Rightarrow> val \<Rightarrow> val \<Rightarrow> val" where
  "assoc k v (VObj m) = VObj (fmupd k v m)"
| "assoc k v _ = VObj (fmupd k v fmempty)"

definition splice_metadata :: "obj \<Rightarrow> string \<Rightarrow> val \<Rightarrow> error + val" where
  "splice_metadata flds relationship response =
     (case remote_attributes response of
        Inl err \<Rightarrow> Inl err
      | Inr attrs \<Rightarrow>
          let target_revision_id = opt_get attrs ''drupal_internal__revision_id'';
              drupal_internal__target_id = opt_get attrs ''drupal_internal__id''
          in if \<not> truthy drupal_internal__target_id then Inr (jsget flds relationship)
             else
               let meta = VObj (fmupd ''target_revision_id'' target_revision_id
                     (fmupd ''drupal_internal__target_id'' drupal_internal__target_id fmempty));
                   addMetaData = assoc ''meta'' meta;
                   insertMetaData = map (\<lambda>el.
                     if opt_get el ''id'' = opt_get response ''id'' then addMetaData el else el)
               in Inr (case jsget flds relationship of
                         VArr xs \<Rightarrow> VArr (insertMetaData xs)
                       | v \<Rightarrow> addMetaData v))"

section \<open>Link: the update of a to-one relationship\<close>

text \<open>
  \<^verbatim>\<open>origRev.dependencies\<close> is a \<^verbatim>\<open>Map\<close> from a dependent reference to a relationship
  name, in insertion order. \<^verbatim>\<open>state.value\<close> of the satellite is a reference or \<^verbatim>\<open>null\<close>;
  deleting the key \<^verbatim>\<open>null\<close> removes nothing.
\<close>

definition dependencies_delete :: "nat option \<Rightarrow> (nat \<times> string) list \<Rightarrow> (nat \<times> string) list" where
  "dependencies_delete k deps =
     (case k of None \<Rightarrow> deps | Some r \<Rightarrow> filter (\<lambda>(r', n). r' \<noteq> r) deps)"

definition dependencies_set :: "nat \<Rightarrow> string \<Rightarrow> (nat \<times> string) list \<Rightarrow> (nat \<times> string) list" where
  "dependencies_set r n deps =
     (if r \<in> fst ` set deps then map (\<lambda>(r', n'). if r' = r then (r, n) else (r', n')) deps
      else deps @ [(r, n)])"

text \<open>Assigning to \<^verbatim>\<open>dependencies\<close> of the revision object at an address.\<close>

definition set_dependencies :: "nat \<Rightarrow> (nat \<times> string) list \<Rightarrow> engine \<Rightarrow> engine" where
  "set_dependencies a deps e =
     (case objects e a of
        None \<Rightarrow> e
      | Some revision \<Rightarrow>
          e\<lparr> objects := (objects e)(a \<mapsto> revision\<lparr> rev_dependencies := Some deps \<rparr>) \<rparr>)"

text \<open>
  The watcher callback \<^verbatim>\<open>update(next, prev)\<close> that \<^verbatim>\<open>link\<close> sets on the relationship
  field of the source, up to the test for a to-many relationship: the dependency map is
  created when missing; an emptied field clears the satellite; a new valid identifier
  checks an entity out, records the dependency edge and sets the satellite's entry of
  \<^verbatim>\<open>revisions\<close> to the revision of what was checked out. The to-many branch that follows
  acts only when the field, the satellite or the new value is an array.
\<close>

definition update_to_one ::
  "env \<Rightarrow> nat \<Rightarrow> nat \<Rightarrow> string \<Rightarrow> string \<Rightarrow> val \<Rightarrow> val \<Rightarrow> engine \<Rightarrow> error + engine" where
  "update_to_one E linkedRef origRef relationship entity nxt prv e =
     (case revisions e origRef of
        None \<Rightarrow> Inl TypeError
      | Some a \<Rightarrow>
          (case objects e a of
             None \<Rightarrow> Inl TypeError
           | Some origRev \<Rightarrow>
               let deps0 = (case rev_dependencies origRev of None \<Rightarrow> [] | Some d \<Rightarrow> d);
                   value0 = (case satellites e linkedRef of None \<Rightarrow> None | Some v \<Rightarrow> v);
                   cleared = (\<not> truthy nxt \<and> validate E (opt_get prv ''id''));
                   deps1 = (if cleared then dependencies_delete value0 deps0 else deps0);
                   value1 = (if cleared then None else value0);
                   e1 = set_dependencies a deps1
                          (e\<lparr> satellites := (satellites e)(linkedRef \<mapsto> value1) \<rparr>)
               in if validate E (opt_get nxt ''id'') \<and> opt_get nxt ''id'' \<noteq> opt_get prv ''id''
                  then
                    (case dot_get prv ''id'' of
                       Inl err \<Rightarrow> Inl err
                     | Inr prev_id \<Rightarrow>
                         (case checkout E entity (opt_get nxt ''type'') prev_id e1 of
                            Inl err \<Rightarrow> Inl err
                          | Inr (target, e2) \<Rightarrow>
                              let deps2 = dependencies_set target relationship
                                    (dependencies_delete value1 deps1)
                              in Inr (set_dependencies a deps2
                                   (e2\<lparr> satellites := (satellites e2)(linkedRef \<mapsto> Some target),
                                       revisions := (revisions e2)(linkedRef := revisions e2 target) \<rparr>))))
                  else Inr e1))"

section \<open>Notifying listeners\<close>

text \<open>
  \<^verbatim>\<open>safeCall(callback, ...args)\<close> catches what the callback throws and writes it to the
  console. A notification counts the listeners it has called, so that one can tell whether
  a listener was reached.
\<close>

definition safeCall :: "listener \<Rightarrow> val \<Rightarrow> val list \<Rightarrow> val list" where
  "safeCall callback arg console =
     (case callback arg of Returned \<Rightarrow> console | Threw err \<Rightarrow> console @ [err])"

text \<open>\<^verbatim>\<open>listeners.forEach((fn) => { safeCall(fn, value); })\<close>\<close>

fun forEach_safeCall :: "listener list \<Rightarrow> val \<Rightarrow> nat \<times> val list \<Rightarrow> nat \<times> val list" where
  "forEach_safeCall [] v (called, console) = (called, console)"
| "forEach_safeCall (fn # fns) v (called, console) =
     forEach_safeCall fns v (Suc called, safeCall fn v console)"

text \<open>\<^verbatim>\<open>listeners.forEach((fn) => { fn(value); })\<close>: what a listener throws leaves the loop.\<close>

fun forEach_call :: "listener list \<Rightarrow> val \<Rightarrow> nat \<Rightarrow> nat \<times> error option" where
  "forEach_call [] v called = (called, None)"
| "forEach_call (fn # fns) v called =
     (case fn v of
        Returned \<Rightarrow> forEach_call fns v (Suc called)
      | Threw err \<Rightarrow> (Suc called, Some (Thrown err)))"

text \<open>
  The notification points, each as the callback it sits in, given the state and the
  listeners that the callback closes over. The result holds the state after the callback,
  the number of listeners called and what the callback returns or throws.

  Single-entity load, in the load task of \<^verbatim>\<open>checkout\<close>: cached data is emitted and the
  \<^verbatim>\<open>load\<close> listeners are called through \<^verbatim>\<open>safeCall\<close>.
\<close>

definition load_notify :: "obj \<Rightarrow> listener list \<Rightarrow> obj option \<Rightarrow> obj \<times> nat \<times> val list" where
  "load_notify state listeners_load data =
     (case data of
        None \<Rightarrow> (state, 0, [])
      | Some d \<Rightarrow> (emit state (Some d), forEach_safeCall listeners_load (VObj d) (0, [])))"

text \<open>
  Single-entity sync, in \<^verbatim>\<open>syncHandler\<close>: the value of the response is emitted and the
  \<^verbatim>\<open>sync\<close> listeners are called through \<^verbatim>\<open>safeCall\<close>.
\<close>

definition syncHandler_notify :: "obj \<Rightarrow> listener list \<Rightarrow> obj option \<Rightarrow> obj \<times> nat \<times> val list" where
  "syncHandler_notify state listeners_sync v =
     (case v of
        None \<Rightarrow> (state, 0, [])
      | Some d \<Rightarrow> (emit state (Some d), forEach_safeCall listeners_sync (VObj d) (0, [])))"

text \<open>
  After \<^verbatim>\<open>syncHandler\<close>, the load task of \<^verbatim>\<open>checkout\<close> replays the pending transactions
  against the value, emits the delta and calls the \<^verbatim>\<open>sync\<close> listeners directly.
\<close>

definition checkout_synced ::
  "obj \<Rightarrow> listener list \<Rightarrow> transaction list \<Rightarrow> obj option \<Rightarrow> obj \<times> nat \<times> (error + obj option)" where
  "checkout_synced state listeners_sync transactions v =
     (case replay v transactions of
        Inl err \<Rightarrow> (state, 0, Inl err)
      | Inr flds \<Rightarrow>
          let state1 = emit state (Some flds)
          in (case v of
                None \<Rightarrow> (state1, 0, Inr None)
              | Some d \<Rightarrow>
                  (case forEach_call listeners_sync (VObj d) 0 of
                     (called, None) \<Rightarrow> (state1, called, Inr v)
                   | (called, Some err) \<Rightarrow> (state1, called, Inl err))))"

text \<open>
  Collection sync, the last continuation of \<^verbatim>\<open>checkoutCollection\<close>: the \<^verbatim>\<open>sync\<close>
  listeners are called directly with the data, then every member has its pending
  transactions replayed against its state and the delta emitted. A member is given by its
  state and its transaction log.
\<close>

fun replay_members :: "(obj \<times> transaction list) list \<Rightarrow> error + obj list" where
  "replay_members [] = Inr []"
| "replay_members ((itemState, transactions) # ms) =
     (case replay (Some itemState) transactions of
        Inl err \<Rightarrow> Inl err
      | Inr flds \<Rightarrow>
          (case replay_members ms of
             Inl err \<Rightarrow> Inl err
           | Inr states \<Rightarrow> Inr (emit itemState (Some flds) # states)))"

definition collection_synced ::
  "listener list \<Rightarrow> val \<Rightarrow> (obj \<times> transaction list) list \<Rightarrow> nat \<times> (error + obj list)" where
  "collection_synced listeners_sync data members =
     (case forEach_call listeners_sync data 0 of
        (called, Some err) \<Rightarrow> (called, Inl err)
      | (called, None) \<Rightarrow> (called, replay_members members))"

text \<open>
  The last continuation of the task of \<^verbatim>\<open>commit\<close>, after \<^verbatim>\<open>syncHandler\<close>: the \<^verbatim>\<open>sync\<close>
  listeners are called directly when the response has a value.
\<close>

definition commit_synced :: "listener list \<Rightarrow> obj option \<Rightarrow> nat \<times> (error + obj option)" where
  "commit_synced listeners_sync v =
     (case v of
        None \<Rightarrow> (0, Inr None)
      | Some d \<Rightarrow>
          (case forEach_call listeners_sync (VObj d) 0 of
             (called, None) \<Rightarrow> (called, Inr v)
           | (called, Some err) \<Rightarrow> (called, Inl err)))"

section \<open>Concrete inputs\<close>

text \<open>
  An environment with two entity kinds and two valid identifiers, a source entity with a
  satellite linked to it, a resource identifier as a relationship field holds it, a
  collection of two members, and two listeners.
\<close>

definition demo_env :: env where
  "demo_env =
     \<lparr> memoized = [''asset'' \<mapsto> ''asset'', ''log'' \<mapsto> ''log''],
       shortName = [''asset'' \<mapsto> ''asset'', ''log'' \<mapsto> ''log''],
       valid_uuid = (\<lambda>s. s \<in> {''uuid-a'', ''uuid-b''}),
       uuidv4 = (\<lambda>n. ''uuid-new''),
       farm_create = (\<lambda>sn i t. fmupd ''id'' (VStr i) (fmupd ''type'' t fmempty)),
       farm_update = (\<lambda>sn p f. flattenEntity p ++\<^sub>f f),
       restoreTransactions = (\<lambda>en t i r. (r, [])),
       identifyRoute = ''/home'' \<rparr>"

text \<open>
  The same environment with a backup to restore, an alias of the entity name and default
  attributes in what \<^verbatim>\<open>create\<close> returns.
\<close>

definition backup_env :: env where
  "backup_env =
     \<lparr> memoized = [''logs'' \<mapsto> ''log'', ''log'' \<mapsto> ''log''],
       shortName = [''log'' \<mapsto> ''log''],
       valid_uuid = (\<lambda>s. s \<in> {''uuid-a'', ''uuid-b''}),
       uuidv4 = (\<lambda>n. ''uuid-new''),
       farm_create = (\<lambda>sn i t. fmupd ''id'' (VStr i) (fmupd ''type'' t
         (fmupd ''attributes'' (VObj (fmupd ''name'' (VStr []) fmempty)) fmempty))),
       farm_update = (\<lambda>sn p f. flattenEntity p ++\<^sub>f f),
       restoreTransactions = (\<lambda>en t i r. (r, [set_field ''name'' (VStr ''Plot A'')])),
       identifyRoute = ''/home'' \<rparr>"

definition linked_source :: engine where
  "linked_source =
     \<lparr> revisions = [0 \<mapsto> 0],
       objects = [0 \<mapsto> \<lparr> rev_entity = ''log'', rev_type = VStr ''log--activity'',
         rev_id = ''uuid-l'', rev_state = fmupd ''id'' (VStr ''uuid-l'') fmempty,
         rev_transactions = 0, rev_queue = [], rev_backupURI = [], rev_load = [],
         rev_sync = [], rev_dependencies = None \<rparr>],
       collections = Map.empty,
       satellites = [1 \<mapsto> None], arrays = [[set_field ''n'' (VNum 1)]], next_ref = 2,
       uuids_used = 0, effects = [] \<rparr>"

definition resource_id :: "string \<Rightarrow> val" where
  "resource_id i = VObj (fmupd ''id'' (VStr i) (fmupd ''type'' (VStr ''asset--land'') fmempty))"

definition member_revision :: "string \<Rightarrow> nat \<Rightarrow> revision" where
  "member_revision ident log =
     \<lparr> rev_entity = ''log'', rev_type = VStr ''log--activity'', rev_id = ident,
       rev_state = fmupd ''id'' (VStr ident) fmempty, rev_transactions = log,
       rev_queue = [], rev_backupURI = [], rev_load = [], rev_sync = [],
       rev_dependencies = None \<rparr>"

definition two_members :: engine where
  "two_members =
     \<lparr> revisions = [1 \<mapsto> 1, 2 \<mapsto> 2],
       objects = [1 \<mapsto> member_revision ''a1'' 0, 2 \<mapsto> member_revision ''a2'' 1],
       collections = [0 \<mapsto> \<lparr> col_entity = ''log'', col_filter = VObj fmempty,
         col_state = [1, 2], col_load = [], col_sync = [] \<rparr>],
       satellites = Map.empty, arrays = [[], []], next_ref = 3, uuids_used = 0,
       effects = [] \<rparr>"

definition throwing :: listener where
  "throwing v = Threw (VStr ''boom'')"

definition quiet :: listener where
  "quiet v = Returned"

section \<open>Replay: properties\<close>

lemma jsget_fmupd: "jsget (fmupd k v m) k' = (if k' = k then v else jsget m k')"
  by (simp add: jsget_def)

lemma jsget_fmempty: "jsget fmempty k = VUndefined"
  by (simp add: jsget_def)

lemma set_add_set: "set (set_add k ks) = insert k (set ks)"
  by (auto simp: set_add_def)

text \<open>
  C4. For every baseline, an entity or \<^verbatim>\<open>undefined\<close>, replaying the empty transaction list
  returns the empty field delta.
\<close>

theorem replay_empty_log: "replay B [] = Inr fmempty"
  by (simp add: replay_def)

subsection \<open>What a pass over entries leaves\<close>

lemma apply_entries_append:
  "apply_entries (es1 @ es2) st = apply_entries es2 (apply_entries es1 st)"
proof (induction es1 arbitrary: st)
  case Nil
  show ?case by (cases st) simp
next
  case (Cons e es1)
  obtain key v where e: "e = (key, v)" by (cases e)
  obtain c fs where st: "st = (c, fs)" by (cases st)
  show ?case using Cons.IH by (simp add: e st)
qed

text \<open>After a pass, a key holds the last value proposed for it, or what it held before.\<close>

lemma apply_entries_get:
  "jsget (fst (apply_entries es (c, fs))) k =
     (case map_of (rev es) k of None \<Rightarrow> jsget c k | Some v \<Rightarrow> v)"
proof (induction es arbitrary: c fs)
  case Nil
  show ?case by simp
next
  case (Cons e es)
  obtain key v where e: "e = (key, v)" by (cases e)
  show ?case
    by (auto simp: e Cons.IH jsget_fmupd map_of_append split: option.splits)
qed

lemma apply_entries_fieldSet_mono:
  "set fs \<subseteq> set (snd (apply_entries es (c, fs)))"
proof (induction es arbitrary: c fs)
  case Nil
  show ?case by simp
next
  case (Cons e es)
  obtain key v where e: "e = (key, v)" by (cases e)
  show ?case using Cons.IH[of "set_add key fs" "fmupd key v c"] Cons.IH[of fs c]
    by (auto simp: e set_add_set)
qed

lemma apply_entries_fieldSet_keys:
  "set (snd (apply_entries es (c, fs))) \<subseteq> set fs \<union> fst ` set es"
proof (induction es arbitrary: c fs)
  case Nil
  show ?case by simp
next
  case (Cons e es)
  obtain key v where e: "e = (key, v)" by (cases e)
  show ?case using Cons.IH[of "fmupd key v c" "set_add key fs"] Cons.IH[of c fs]
    by (auto simp: e set_add_set)
qed

text \<open>A key that was not recorded was not written.\<close>

lemma apply_entries_untouched:
  "k \<notin> set (snd (apply_entries es (c, fs))) \<Longrightarrow>
   jsget (fst (apply_entries es (c, fs))) k = jsget c k"
proof (induction es arbitrary: c fs)
  case Nil
  show ?case by simp
next
  case (Cons e es)
  obtain key v where e: "e = (key, v)" by (cases e)
  show ?case
  proof (cases "jsget c key \<noteq> v")
    case True
    with Cons.prems have nk: "k \<notin> set (snd (apply_entries es (fmupd key v c, set_add key fs)))"
      by (simp add: e)
    have "key \<in> set (snd (apply_entries es (fmupd key v c, set_add key fs)))"
      using apply_entries_fieldSet_mono[of "set_add key fs" es "fmupd key v c"]
      by (auto simp: set_add_set)
    with nk have "k \<noteq> key" by auto
    with Cons.IH[OF nk] True show ?thesis by (simp add: e jsget_fmupd)
  next
    case False
    with Cons.prems Cons.IH[of c fs] show ?thesis by (simp add: e)
  qed
qed

lemma run_transactions_append:
  "run_transactions (T1 @ T2) st = run_transactions T2 (run_transactions T1 st)"
proof (induction T1 arbitrary: st)
  case Nil
  show ?case by simp
next
  case (Cons tx T1)
  obtain c fs where st: "st = (c, fs)" by (cases st)
  show ?case using Cons.IH by (simp add: st)
qed

text \<open>
  Transactions that do not read the snapshot amount to one pass over all their entries.
\<close>

lemma run_transactions_constant:
  "\<forall>tx \<in> set T. \<forall>s s'. tx s = tx s' \<Longrightarrow>
   run_transactions T st = apply_entries (concat (map (\<lambda>tx. tx fmempty) T)) st"
proof (induction T arbitrary: st)
  case Nil
  show ?case by (cases st) simp
next
  case (Cons tx T)
  obtain c fs where st: "st = (c, fs)" by (cases st)
  have tx: "tx c = tx fmempty" using Cons.prems by simp
  have "run_transactions T (apply_entries (tx c) (c, fs)) =
        apply_entries (concat (map (\<lambda>tx. tx fmempty) T)) (apply_entries (tx c) (c, fs))"
    using Cons.IH Cons.prems by simp
  then show ?case
    by (simp add: st apply_entries_append tx)
qed

subsection \<open>What the delta keeps\<close>

lemma changed_fields_lookup:
  "changed_fields (Some B) F S acc = Inr D \<Longrightarrow>
   fmlookup D k =
     (if k \<in> set S \<and> jsget F k \<noteq> jsget B k then Some (jsget F k) else fmlookup acc k)"
proof (induction S arbitrary: acc)
  case Nil
  then show ?case by simp
next
  case (Cons f S)
  then show ?case
    by (auto simp: get_member_def split: if_splits)
qed

lemma changed_fields_none:
  "\<forall>k \<in> set S. jsget F k = jsget B k \<Longrightarrow> changed_fields (Some B) F S acc = Inr acc"
  by (induction S arbitrary: acc) (auto simp: get_member_def)

lemma flatten_nested_entity:
  "flattenEntity (Some nested_entity) =
     fmupd ''id'' (VStr ''a1'') (fmupd ''type'' (VStr ''log--activity'')
       (fmupd ''x'' (VNum 1) fmempty))"
  by (simp add: flattenEntity_def nested_entity_def jsget_fmupd jsget_fmempty fmdrop_fmupd)

subsection \<open>Convergence\<close>

lemma flatten_counted_entity:
  "flattenEntity (Some counted_entity) =
     fmupd ''id'' (VStr ''a1'') (fmupd ''type'' (VStr ''log--activity'')
       (fmupd ''n'' (VNum 5) fmempty))"
  by (simp add: flattenEntity_def counted_entity_def jsget_fmupd jsget_fmempty fmdrop_fmupd)

text \<open>
  C2, as stated, fails. A transaction may read the snapshot: against an entity whose
  attributes hold \<^verbatim>\<open>n = 5\<close> the counter transaction gives the delta \<^verbatim>\<open>n = 6\<close>; written
  over the flattened baseline and replayed again, it proposes \<^verbatim>\<open>n = 7\<close>, and the second
  delta is not empty.
\<close>

theorem replay_convergence_counterexample:
  "replay (Some counted_entity) [increment ''n''] = Inr (fmupd ''n'' (VNum 6) fmempty) \<and>
   replay (Some (flattenEntity (Some counted_entity) ++\<^sub>f fmupd ''n'' (VNum 6) fmempty))
     [increment ''n''] = Inr (fmupd ''n'' (VNum 7) fmempty) \<and>
   fmupd ''n'' (VNum 7) fmempty \<noteq> (fmempty :: obj)"
proof (intro conjI)
  show "replay (Some counted_entity) [increment ''n''] = Inr (fmupd ''n'' (VNum 6) fmempty)"
    by (simp add: replay_def flatten_def clone_def flatten_counted_entity increment_def
          jsget_fmupd jsget_fmempty set_add_def get_member_def)
       (simp add: counted_entity_def jsget_fmupd jsget_fmempty)
  show "replay (Some (flattenEntity (Some counted_entity) ++\<^sub>f fmupd ''n'' (VNum 6) fmempty))
     [increment ''n''] = Inr (fmupd ''n'' (VNum 7) fmempty)"
    by (simp add: flatten_counted_entity)
       (simp add: replay_def flatten_def clone_def flattenEntity_def
          increment_def jsget_fmupd jsget_fmempty fmdrop_fmupd set_add_def get_member_def)
  show "fmupd ''n'' (VNum 7) fmempty \<noteq> (fmempty :: obj)"
    by (metis fmdom_empty fmdom_fmupd finsert_not_fempty)
qed

text \<open>A property of the baseline itself, other than the two that are spread, is kept by flattening.\<close>

lemma flattenEntity_own_property:
  assumes "fmlookup B k = Some v" "k \<noteq> ''attributes''" "k \<noteq> ''relationships''"
  shows "jsget (flattenEntity (Some B)) k = v"
  using assms by (simp add: flattenEntity_def jsget_def fmlookup_dom_iff)

text \<open>
  C2, amended. Let \<open>B\<close> be any baseline, flat or in record form, and \<open>T\<close> a list of
  transactions whose proposed field map does not depend on the snapshot, as the
  transactions that \<^verbatim>\<open>revise\<close> builds from an object of fields, and proposes no
  \<^verbatim>\<open>undefined\<close> value and no field named \<^verbatim>\<open>attributes\<close> or \<^verbatim>\<open>relationships\<close>. Then
  replaying \<open>T\<close> against the baseline that the delta of \<open>replay B T\<close>, written over the
  flattened \<open>B\<close>, gives, yields the empty delta.
\<close>

theorem replay_converges_for_constant_transactions:
  assumes const: "\<forall>tx \<in> set T. \<forall>s s'. tx s = tx s'"
    and plain: "\<forall>tx \<in> set T. \<forall>s. \<forall>(k, v) \<in> set (tx s).
        v \<noteq> VUndefined \<and> k \<noteq> ''attributes'' \<and> k \<noteq> ''relationships''"
    and D: "replay (Some B) T = Inr D"
  shows "replay (Some (flattenEntity (Some B) ++\<^sub>f D)) T = Inr fmempty"
proof -
  let ?E = "concat (map (\<lambda>tx. tx fmempty) T)"
  let ?base = "flattenEntity (Some B)"
  let ?B' = "?base ++\<^sub>f D"
  have plainE: "v \<noteq> VUndefined \<and> k \<noteq> ''attributes'' \<and> k \<noteq> ''relationships''"
    if "(k, v) \<in> set ?E" for k v
    using that plain by fastforce
  obtain F S where FS: "apply_entries ?E (?base, []) = (F, S)"
    by (cases "apply_entries ?E (?base, [])")
  have run1: "run_transactions T (?base, []) = (F, S)"
    using run_transactions_constant[OF const] FS by simp
  have cf: "changed_fields (Some B) F S fmempty = Inr D"
    using D run1 by (simp add: replay_def flatten_def clone_def)
  have Dk: "fmlookup D k =
      (if k \<in> set S \<and> jsget F k \<noteq> jsget B k then Some (jsget F k) else None)" for k
    using changed_fields_lookup[OF cf, of k] by simp
  have untouched: "k \<notin> set S \<Longrightarrow> jsget F k = jsget ?base k" for k
    using apply_entries_untouched[of k ?E ?base "[]"] FS by simp
  have B'F: "jsget ?B' k = jsget F k" if v: "map_of (rev ?E) k = Some v" for k v
  proof (cases "k \<in> set S \<and> jsget F k \<noteq> jsget B k")
    case True
    then have "fmlookup D k = Some (jsget F k)" using Dk by simp
    then show ?thesis by (simp add: jsget_def fmlookup_dom_iff)
  next
    case False
    then have "fmlookup D k = None" using Dk by simp
    then have eq: "jsget ?B' k = jsget ?base k"
      by (simp add: jsget_def fmdom_notI split: option.splits)
    show ?thesis
    proof (cases "k \<in> set S")
      case False
      with untouched eq show ?thesis by simp
    next
      case True
      with \<open>\<not> (k \<in> set S \<and> jsget F k \<noteq> jsget B k)\<close> have FB: "jsget F k = jsget B k" by simp
      have Fv: "jsget F k = v" using apply_entries_get[of ?E ?base "[]" k] FS v by simp
      have "(k, v) \<in> set ?E" using map_of_SomeD[OF v] by simp
      then have p: "v \<noteq> VUndefined" "k \<noteq> ''attributes''" "k \<noteq> ''relationships''"
        using plainE by blast+
      have "fmlookup B k = Some v"
        using FB Fv p(1) by (auto simp: jsget_def split: option.splits)
      from flattenEntity_own_property[OF this p(2,3)] Fv eq show ?thesis by simp
    qed
  qed
  let ?again = "flattenEntity (Some ?B')"
  obtain F2 S2 where FS2: "apply_entries ?E (?again, []) = (F2, S2)"
    by (cases "apply_entries ?E (?again, [])")
  have same: "jsget F2 k = jsget ?B' k" if "k \<in> set S2" for k
  proof -
    have "k \<in> fst ` set ?E"
      using apply_entries_fieldSet_keys[of ?E ?again "[]"] FS2 that by auto
    then have "k \<in> fst ` set (rev ?E)" by simp
    then obtain v where v: "map_of (rev ?E) k = Some v"
      by (metis map_of_eq_None_iff not_None_eq)
    have "jsget F2 k = v" using apply_entries_get[of ?E ?again "[]" k] FS2 v by simp
    moreover have "jsget F k = v" using apply_entries_get[of ?E ?base "[]" k] FS v by simp
    ultimately show ?thesis using B'F[OF v] by simp
  qed
  have "run_transactions T (?again, []) = (F2, S2)"
    using run_transactions_constant[OF const] FS2 by simp
  then show ?thesis
    using changed_fields_none[of S2 F2 ?B' fmempty] same
    by (simp add: replay_def flatten_def clone_def)
qed

theorem replay_converges_for_constant_transactions_witness:
  "(\<forall>s s'. set_field ''x'' (VNum 2) s = set_field ''x'' (VNum 2) s') \<and>
   (\<forall>s. set_field ''x'' (VNum 2) s = [(''x'', VNum 2)]) \<and>
   replay (Some nested_entity) [set_field ''x'' (VNum 2)] = Inr (fmupd ''x'' (VNum 2) fmempty) \<and>
   replay (Some (flattenEntity (Some nested_entity) ++\<^sub>f fmupd ''x'' (VNum 2) fmempty))
     [set_field ''x'' (VNum 2)] = Inr fmempty"
proof -
  have h0: "\<forall>s s'. set_field ''x'' (VNum 2) s = set_field ''x'' (VNum 2) s'"
    by (simp add: set_field_def)
  have h0': "\<forall>s. set_field ''x'' (VNum 2) s = [(''x'', VNum 2)]"
    by (simp add: set_field_def)
  have h1: "\<forall>tx \<in> set [set_field ''x'' (VNum 2)]. \<forall>s s'. tx s = tx s'"
    using h0 by simp
  have h2: "\<forall>tx \<in> set [set_field ''x'' (VNum 2)]. \<forall>s. \<forall>(k, v) \<in> set (tx s).
        v \<noteq> VUndefined \<and> k \<noteq> ''attributes'' \<and> k \<noteq> ''relationships''"
    by (simp add: set_field_def)
  have h3: "replay (Some nested_entity) [set_field ''x'' (VNum 2)] =
      Inr (fmupd ''x'' (VNum 2) fmempty)"
    by (simp add: replay_def flatten_def clone_def flatten_nested_entity set_field_def
          jsget_fmupd jsget_fmempty set_add_def get_member_def)
       (simp add: nested_entity_def jsget_fmupd jsget_fmempty)
  from replay_converges_for_constant_transactions[OF h1 h2 h3] h0 h0' h3
  show ?thesis by blast
qed

subsection \<open>Moot edits\<close>

text \<open>
  C3. The claim holds for a flat baseline and fails for an entity in its record form.
  \<^verbatim>\<open>replay\<close> flattens the baseline into \<^verbatim>\<open>current\<close>, where \<^verbatim>\<open>x\<close> sits at the top level,
  but its last loop compares with \<^verbatim>\<open>previous[field]\<close>, the unflattened baseline, where
  \<^verbatim>\<open>x\<close> sits under \<^verbatim>\<open>attributes\<close> and the top-level read gives \<^verbatim>\<open>undefined\<close>. With
  \<^verbatim>\<open>x = 1\<close> in the baseline, set to \<^verbatim>\<open>2\<close> and back to \<^verbatim>\<open>1\<close>, the delta holds \<^verbatim>\<open>x = 1\<close>.
\<close>

theorem replay_keeps_reverted_field_of_nested_baseline:
  "replay (Some nested_entity) [set_field ''x'' (VNum 2), set_field ''x'' (VNum 1)] =
     Inr (fmupd ''x'' (VNum 1) fmempty) \<and>
   jsget (flatten (Some nested_entity)) ''x'' = VNum 1"
  by (simp add: replay_def flatten_def clone_def flatten_nested_entity set_field_def jsget_fmupd
        jsget_fmempty set_add_def get_member_def)
     (simp add: nested_entity_def jsget_fmupd jsget_fmempty)

text \<open>
  On a flat baseline the revert is elided, whatever the earlier transactions did: a last
  transaction that sets \<open>x\<close> to the baseline's value leaves \<open>x\<close> out of the delta.
\<close>

lemma replay_elides_revert_of_flat_baseline:
  assumes flatB: "flattenEntity (Some B) = B"
    and D: "replay (Some B) (T @ [set_field x (jsget B x)]) = Inr D"
  shows "x |\<notin>| fmdom D"
proof -
  obtain F0 S0 where r0: "run_transactions T (B, []) = (F0, S0)"
    by (cases "run_transactions T (B, [])")
  obtain F S where r1: "apply_entries [(x, jsget B x)] (F0, S0) = (F, S)"
    by (cases "apply_entries [(x, jsget B x)] (F0, S0)")
  have run: "run_transactions (T @ [set_field x (jsget B x)]) (B, []) = (F, S)"
    using r0 r1 by (simp add: run_transactions_append set_field_def)
  have Fx: "jsget F x = jsget B x"
    using apply_entries_get[of "[(x, jsget B x)]" F0 S0 x] r1 by simp
  have "changed_fields (Some B) F S fmempty = Inr D"
    using D run by (simp add: replay_def flatten_def clone_def flatB)
  from changed_fields_lookup[OF this, of x] Fx have "fmlookup D x = None" by simp
  then show ?thesis by (simp add: fmdom_notI)
qed

subsection \<open>The baseline is left alone\<close>

lemma apply_entries_at_eq:
  "current < length h \<Longrightarrow>
   apply_entries_at current es (h, fs) =
     (h[current := fst (apply_entries es (h ! current, fs))],
      snd (apply_entries es (h ! current, fs)))"
proof (induction es arbitrary: h fs)
  case Nil
  then show ?case by simp
next
  case (Cons e es)
  obtain key v where e: "e = (key, v)" by (cases e)
  show ?case
  proof (cases "jsget (h ! current) key \<noteq> v")
    case True
    let ?h = "h[current := fmupd key v (h ! current)]"
    have len: "current < length ?h" using Cons.prems by simp
    show ?thesis
      using Cons.IH[OF len, of "set_add key fs"] Cons.prems True by (simp add: e)
  next
    case False
    then show ?thesis using Cons.IH[OF Cons.prems, of fs] by (simp add: e)
  qed
qed

lemma run_transactions_at_eq:
  "current < length h \<Longrightarrow>
   run_transactions_at current T (h, fs) =
     (h[current := fst (run_transactions T (h ! current, fs))],
      snd (run_transactions T (h ! current, fs)))"
proof (induction T arbitrary: h fs)
  case Nil
  then show ?case by simp
next
  case (Cons tx T)
  obtain c' fs' where a: "apply_entries (tx (h ! current)) (h ! current, fs) = (c', fs')"
    by (cases "apply_entries (tx (h ! current)) (h ! current, fs)")
  have len: "current < length (h[current := c'])" using Cons.prems by simp
  show ?case
    using Cons.IH[OF len, of fs'] Cons.prems
    by (simp add: apply_entries_at_eq a)
qed

lemma replay_at_eq:
  assumes "p < length h"
  shows "replay_at h (Some p) T =
     ((h @ [flattenEntity (Some (h ! p)), flattenEntity (Some (h ! p))])
        [Suc (length h) := fst (run_transactions T (flatten (Some (h ! p)), []))],
      replay (Some (h ! p)) T)"
proof -
  let ?F = "flattenEntity (Some (h ! p))"
  let ?h1 = "h @ [?F, ?F]"
  have fl: "flatten_at h (Some p) = (?h1, Suc (length h))"
    by (simp add: flatten_at_def alloc_def deref_def clone_def nth_append)
  have cur: "?h1 ! Suc (length h) = ?F" by (simp add: nth_append)
  have len: "Suc (length h) < length ?h1" by simp
  have p1: "(?h1[Suc (length h) := x]) ! p = h ! p" for x
    using assms by (simp add: nth_append)
  show ?thesis
    using run_transactions_at_eq[OF len, of T "[]"] assms
    by (simp add: replay_at_def fl cur replay_def flatten_def clone_def deref_def p1
             split: prod.splits)
qed

text \<open>
  C9. Replay in the store, against the baseline at a valid address \<open>p\<close>, leaves every
  object that existed before as it was, the baseline among them: the writes go to the
  clone allocated by \<^verbatim>\<open>flatten\<close>. The delta it returns is the one \<open>replay\<close> computes from
  the baseline's value.
\<close>

theorem replay_at_frame:
  "p < length h \<Longrightarrow> a < length h \<Longrightarrow>
   fst (replay_at h (Some p) T) ! a = h ! a \<and>
   snd (replay_at h (Some p) T) = replay (Some (h ! p)) T"
  by (simp add: replay_at_eq nth_append)

theorem replay_at_frame_witness:
  "(0::nat) < length [nested_entity] \<and>
   fst (replay_at [nested_entity] (Some 0) [set_field ''x'' (VNum 2)]) ! 0 = nested_entity \<and>
   snd (replay_at [nested_entity] (Some 0) [set_field ''x'' (VNum 2)]) =
     replay (Some nested_entity) [set_field ''x'' (VNum 2)]"
proof -
  have h: "(0::nat) < length [nested_entity]" by simp
  from replay_at_frame[OF h h, of "[set_field ''x'' (VNum 2)]"] h show ?thesis by simp
qed

section \<open>Checkout of a new entity\<close>

lemma commit_entity_eq:
  assumes "revisions e r = Some a" "objects e a = Some revision"
    "shortName E (rev_entity revision) = Some sn"
  shows "commit_entity E r e =
     Inr (e\<lparr> arrays := arrays e @ [arrays e ! rev_transactions revision, []],
             objects := (objects e)(a \<mapsto>
               revision\<lparr> rev_transactions := Suc (length (arrays e)),
                 rev_queue := rev_queue revision @ [CommitTask (length (arrays e))] \<rparr>) \<rparr>)"
  using assms by (simp add: commit_entity_def lookup_revision_def Let_def)

text \<open>
  C5. For a known entity kind and a type that is not a filter object, \<^verbatim>\<open>checkout\<close> with an
  \<^verbatim>\<open>id\<close> that is absent or does not validate (and is not a filter object, which is
  dispatched to the collection checkout before) returns a new reference and leaves the
  engine as it was but for the new revision, the new transaction array and the two
  counters. The revision is registered under the reference, with the entity name, the type,
  a new uuid, the default fields of \<^verbatim>\<open>create\<close> as live state and the backup handle; its
  queue holds the initial task only, which neither reads the cache nor asks for a sync; no
  collaborator was called; and its transaction log is what \<^verbatim>\<open>restoreTransactions\<close>
  returned. The reference is usable at once: \<^verbatim>\<open>revise\<close> appends to the restored log and
  emits into the state, and \<^verbatim>\<open>commit\<close> queues a task that holds the restored log.
\<close>

theorem checkout_new_entity:
  assumes kind: "memoized E entity = Some entity'" "entity' \<noteq> []" "shortName E entity' = Some sn"
    and type: "\<not> is_Object type"
    and no_filter: "\<not> is_Object ident"
    and invalid: "\<not> validate E ident"
  shows "\<exists>e' revision init restored.
     init = farm_create E sn (uuidv4 E (uuids_used e)) type \<and>
     restored = restoreTransactions E entity' type (uuidv4 E (uuids_used e)) (identifyRoute E) \<and>
     checkout E entity type ident e = Inr (next_ref e, e') \<and>
     e' = e\<lparr> revisions := (revisions e)(next_ref e \<mapsto> next_ref e),
             objects := (objects e)(next_ref e \<mapsto> revision),
             arrays := arrays e @ [snd restored],
             next_ref := Suc (next_ref e),
             uuids_used := Suc (uuids_used e) \<rparr> \<and>
     revision = \<lparr> rev_entity = entity', rev_type = type, rev_id = uuidv4 E (uuids_used e),
       rev_state =
         fmupd ''type'' type (fmupd ''id'' (VStr (uuidv4 E (uuids_used e))) fmempty) ++\<^sub>f
         spread (jsget init ''attributes'') ++\<^sub>f spread (jsget init ''relationships''),
       rev_transactions = length (arrays e), rev_queue = [InitTask init],
       rev_backupURI = fst restored, rev_load = [], rev_sync = [],
       rev_dependencies = None \<rparr> \<and>
     revision_of e' (next_ref e) = Some revision \<and>
     (\<forall>t \<in> set (rev_queue revision). \<not> reads_cache t \<and> \<not> requests_sync t) \<and>
     effects e' = effects e \<and>
     collections e' = collections e \<and>
     arrays e' ! rev_transactions revision = snd restored \<and>
     (\<exists>e2 r2. revise e' (next_ref e) t = Inr e2 \<and> revision_of e2 (next_ref e) = Some r2 \<and>
        arrays e2 ! rev_transactions r2 = snd restored @ [tx_of t] \<and>
        rev_state r2 =
          emit (rev_state revision) (Some (of_entries (tx_of t (rev_state revision))))) \<and>
     (\<exists>e3 r3. commit_entity E (next_ref e) e' = Inr e3 \<and>
        revision_of e3 (next_ref e) = Some r3 \<and>
        rev_queue r3 = [InitTask init, CommitTask (Suc (length (arrays e)))] \<and>
        arrays e3 ! Suc (length (arrays e)) = snd restored \<and>
        arrays e3 ! rev_transactions r3 = [])"
  using assms
  by (simp add: checkout_def createEntity_def Let_def revision_of_def revise_def
        commit_entity_def lookup_revision_def nth_append)

theorem checkout_new_entity_witness:
  "memoized backup_env ''logs'' = Some ''log'' \<and> shortName backup_env ''log'' = Some ''log'' \<and>
   \<not> is_Object (VStr ''log--activity'') \<and> \<not> is_Object VUndefined \<and>
   \<not> validate backup_env VUndefined \<and>
   (\<exists>e' revision.
     checkout backup_env ''logs'' (VStr ''log--activity'') VUndefined linked_source = Inr (2, e') \<and>
     revision_of e' 2 = Some revision \<and> next_ref e' = 3 \<and>
     rev_entity revision = ''log'' \<and> rev_id revision = ''uuid-new'' \<and>
     jsget (rev_state revision) ''id'' = VStr ''uuid-new'' \<and>
     jsget (rev_state revision) ''type'' = VStr ''log--activity'' \<and>
     jsget (rev_state revision) ''name'' = VStr [] \<and>
     effects e' = [] \<and>
     arrays e' ! rev_transactions revision = [set_field ''name'' (VStr ''Plot A'')] \<and>
     (\<exists>e3. commit backup_env 2 e' = Inr e3 \<and>
        arrays e3 ! 2 = [set_field ''name'' (VStr ''Plot A'')]))"
proof -
  have h1: "memoized backup_env ''logs'' = Some ''log''" by (simp add: backup_env_def)
  have h2: "''log'' \<noteq> []" by simp
  have h3: "shortName backup_env ''log'' = Some ''log''" by (simp add: backup_env_def)
  have h4: "\<not> is_Object (VStr ''log--activity'')" by simp
  have h5: "\<not> is_Object VUndefined" by simp
  have h6: "\<not> validate backup_env VUndefined" by (simp add: validate_def)
  from checkout_new_entity[OF h1 h2 h3 h4 h5 h6, of linked_source TxOther]
  obtain e' revision init restored where
    i: "init = farm_create backup_env ''log'' (uuidv4 backup_env (uuids_used linked_source))
          (VStr ''log--activity'')"
    and r: "restored = restoreTransactions backup_env ''log'' (VStr ''log--activity'')
          (uuidv4 backup_env (uuids_used linked_source)) (identifyRoute backup_env)"
    and c: "checkout backup_env ''logs'' (VStr ''log--activity'') VUndefined linked_source =
          Inr (next_ref linked_source, e')"
    and e: "e' = linked_source\<lparr> revisions := (revisions linked_source)(next_ref linked_source \<mapsto> next_ref linked_source),
             objects := (objects linked_source)(next_ref linked_source \<mapsto> revision),
             arrays := arrays linked_source @ [snd restored],
             next_ref := Suc (next_ref linked_source),
             uuids_used := Suc (uuids_used linked_source) \<rparr>"
    and v: "revision = \<lparr> rev_entity = ''log'', rev_type = VStr ''log--activity'',
       rev_id = uuidv4 backup_env (uuids_used linked_source),
       rev_state =
         fmupd ''type'' (VStr ''log--activity'')
           (fmupd ''id'' (VStr (uuidv4 backup_env (uuids_used linked_source))) fmempty) ++\<^sub>f
         spread (jsget init ''attributes'') ++\<^sub>f spread (jsget init ''relationships''),
       rev_transactions = length (arrays linked_source), rev_queue = [InitTask init],
       rev_backupURI = fst restored, rev_load = [], rev_sync = [],
       rev_dependencies = None \<rparr>"
    by (elim exE conjE) (rule that, assumption+)
  have n: "next_ref linked_source = 2" "length (arrays linked_source) = 1"
    by (simp_all add: linked_source_def)
  have c': "checkout backup_env ''logs'' (VStr ''log--activity'') VUndefined linked_source =
      Inr (2, e')"
    using c n by simp
  have q: "revision_of e' 2 = Some revision" by (simp add: e n revision_of_def)
  have s: "rev_entity revision = ''log''" "rev_id revision = ''uuid-new''"
    "jsget (rev_state revision) ''id'' = VStr ''uuid-new''"
    "jsget (rev_state revision) ''type'' = VStr ''log--activity''"
    "jsget (rev_state revision) ''name'' = VStr []"
    by (simp_all add: v i backup_env_def jsget_def)
  have a: "next_ref e' = 3" "effects e' = []"
    "arrays e' ! rev_transactions revision = [set_field ''name'' (VStr ''Plot A'')]"
    by (simp_all add: e v r n nth_append) (simp_all add: linked_source_def backup_env_def)
  have col: "collections e' 2 = None" by (simp add: e linked_source_def)
  have rv: "revisions e' 2 = Some 2" "objects e' 2 = Some revision" by (simp_all add: e n)
  have sn: "shortName backup_env (rev_entity revision) = Some ''log''" using s(1) h3 by simp
  have len: "length (arrays e') = 2" by (simp add: e n)
  have k: "\<exists>e3. commit backup_env 2 e' = Inr e3 \<and>
        arrays e3 ! 2 = [set_field ''name'' (VStr ''Plot A'')]"
    using commit_entity_eq[OF rv sn] col a(3) len by (simp add: commit_def nth_append)
  from h1 h3 h4 h5 h6 c' q s a k show ?thesis by blast
qed

section \<open>Commit and revise\<close>

text \<open>
  C1. For a checked-out entity, \<^verbatim>\<open>commit\<close> followed by \<^verbatim>\<open>revise\<close>, before the queued task
  runs: the task holds an array equal to the log as it was when \<^verbatim>\<open>commit\<close> was called, and
  that is what it replays, whatever \<^verbatim>\<open>previous\<close> it is given; the transaction of the
  \<^verbatim>\<open>revise\<close> call is the one entry of the revision's new log, which is another array than
  the task's; the next \<^verbatim>\<open>commit\<close> queues a task that holds this transaction alone and
  empties the log again.
\<close>

theorem commit_then_revise:
  assumes ref: "revisions e r = Some a" "objects e a = Some revision" "collections e r = None"
    and kind: "shortName E (rev_entity revision) = Some sn"
  shows "\<exists>e1 e2 e3 r2 r3.
     commit E r e = Inr e1 \<and> revise e1 r t = Inr e2 \<and>
     revision_of e2 r = Some r2 \<and>
     rev_queue r2 = rev_queue revision @ [CommitTask (length (arrays e))] \<and>
     arrays e2 ! length (arrays e) = arrays e ! rev_transactions revision \<and>
     map_sum id fst (commit_task E a (length (arrays e)) previous e2) =
       replay previous (arrays e ! rev_transactions revision) \<and>
     arrays e2 ! rev_transactions r2 = [tx_of t] \<and>
     rev_transactions r2 \<noteq> length (arrays e) \<and>
     commit E r e2 = Inr e3 \<and> revision_of e3 r = Some r3 \<and>
     rev_queue r3 = rev_queue revision @
       [CommitTask (length (arrays e)), CommitTask (length (arrays e2))] \<and>
     arrays e3 ! length (arrays e2) = [tx_of t] \<and>
     arrays e3 ! rev_transactions r3 = []"
proof -
  let ?n = "length (arrays e)"
  let ?r1 = "revision\<lparr> rev_transactions := Suc ?n,
                 rev_queue := rev_queue revision @ [CommitTask ?n] \<rparr>"
  let ?e1 = "e\<lparr> arrays := arrays e @ [arrays e ! rev_transactions revision, []],
             objects := (objects e)(a \<mapsto> ?r1) \<rparr>"
  have c1: "commit E r e = Inr ?e1"
    using commit_entity_eq[OF ref(1,2) kind] ref(3) by (simp add: commit_def)
  let ?flds = "of_entries (tx_of t (rev_state revision))"
  let ?r2 = "?r1\<lparr> rev_state := emit (rev_state revision) (Some ?flds) \<rparr>"
  let ?e2 = "?e1\<lparr> arrays := (arrays ?e1)[Suc ?n := arrays ?e1 ! Suc ?n @ [tx_of t]],
        effects := effects ?e1 @ [BackupTransactions (rev_backupURI revision) ?flds],
        objects := (objects ?e1)(a \<mapsto> ?r2) \<rparr>"
  have rv: "revise ?e1 r t = Inr ?e2"
    using ref by (simp add: revise_def Let_def)
  have a2: "arrays ?e2 = arrays e @ [arrays e ! rev_transactions revision, [tx_of t]]"
    by (simp add: list_update_append nth_append)
  have q2: "revision_of ?e2 r = Some ?r2" using ref by (simp add: revision_of_def)
  have kind2: "shortName E (rev_entity ?r2) = Some sn" using kind by simp
  have ref2: "revisions ?e2 r = Some a" "objects ?e2 a = Some ?r2" using ref by simp_all
  have col2: "collections ?e2 r = None" using ref by simp
  let ?m = "length (arrays ?e2)"
  let ?r3 = "?r2\<lparr> rev_transactions := Suc ?m, rev_queue := rev_queue ?r2 @ [CommitTask ?m] \<rparr>"
  let ?e3 = "?e2\<lparr> arrays := arrays ?e2 @ [arrays ?e2 ! rev_transactions ?r2, []],
             objects := (objects ?e2)(a \<mapsto> ?r3) \<rparr>"
  have c3: "commit E r ?e2 = Inr ?e3"
    using commit_entity_eq[OF ref2 kind2] col2 by (simp add: commit_def)
  have q3: "revision_of ?e3 r = Some ?r3" using ref by (simp add: revision_of_def)
  have task: "map_sum id fst (commit_task E a ?n previous ?e2) =
       replay previous (arrays e ! rev_transactions revision)"
    using kind by (simp add: commit_task_def a2 nth_append Let_def split: sum.splits)
  have m: "?m = ?n + 2" by (simp add: a2)
  show ?thesis
    apply (rule exI[of _ ?e1], rule exI[of _ ?e2], rule exI[of _ ?e3])
    apply (rule exI[of _ ?r2], rule exI[of _ ?r3])
    apply (intro conjI)
                apply (rule c1)
               apply (rule rv)
              apply (rule q2)
             apply simp
            apply (simp add: a2 nth_append)
           apply (rule task)
          apply (simp add: a2 nth_append)
         apply simp
        apply (rule c3)
       apply (rule q3)
      apply simp
     apply (simp add: a2 nth_append)
    apply (simp add: a2 nth_append)
    done
qed

theorem commit_then_revise_witness:
  "revisions linked_source 0 = Some 0 \<and> collections linked_source 0 = None \<and>
   (\<exists>e1 e2 e3 r2 r3.
     commit demo_env 0 linked_source = Inr e1 \<and>
     revise e1 0 (TxFunction (increment ''n'')) = Inr e2 \<and>
     revision_of e2 0 = Some r2 \<and>
     arrays e2 ! 1 = [set_field ''n'' (VNum 1)] \<and>
     arrays e2 ! rev_transactions r2 = [increment ''n''] \<and>
     commit demo_env 0 e2 = Inr e3 \<and> revision_of e3 0 = Some r3 \<and>
     arrays e3 ! length (arrays e2) = [increment ''n''])"
proof -
  let ?rev = "\<lparr> rev_entity = ''log'', rev_type = VStr ''log--activity'',
         rev_id = ''uuid-l'', rev_state = fmupd ''id'' (VStr ''uuid-l'') fmempty,
         rev_transactions = 0, rev_queue = [], rev_backupURI = [], rev_load = [],
         rev_sync = [], rev_dependencies = None \<rparr>"
  have h1: "revisions linked_source 0 = Some 0" by (simp add: linked_source_def)
  have h2: "objects linked_source 0 = Some ?rev" by (simp add: linked_source_def)
  have h3: "collections linked_source 0 = None" by (simp add: linked_source_def)
  have h4: "shortName demo_env (rev_entity ?rev) = Some ''log''" by (simp add: demo_env_def)
  have a: "length (arrays linked_source) = 1"
    "arrays linked_source ! rev_transactions ?rev = [set_field ''n'' (VNum 1)]"
    by (simp_all add: linked_source_def)
  from commit_then_revise[OF h1 h2 h3 h4, of "TxFunction (increment ''n'')" None] h1 h3
  show ?thesis unfolding a tx_of.simps by blast
qed

section \<open>The metadata splice\<close>

text \<open>
  When the response of a dependent commit can be read and the attributes of its remote
  metadata carry no \<^verbatim>\<open>drupal_internal__id\<close> (it is missing or falsy), the callback returns
  the relationship field as the replayed delta has it.
\<close>

lemma splice_skips_without_identifier:
  assumes "remote_attributes response = Inr attrs"
    and "\<not> truthy (opt_get attrs ''drupal_internal__id'')"
  shows "splice_metadata flds relationship response = Inr (jsget flds relationship)"
  using assms by (simp add: splice_metadata_def Let_def)

lemma splice_skips_without_identifier_example:
  "remote_attributes (resource_id ''uuid-a'') = Inr (VObj fmempty) \<and>
   \<not> truthy (opt_get (VObj fmempty) ''drupal_internal__id'') \<and>
   splice_metadata (fmupd ''owner'' (resource_id ''uuid-a'') fmempty) ''owner''
     (resource_id ''uuid-a'') = Inr (resource_id ''uuid-a'')"
proof -
  have h1: "remote_attributes (resource_id ''uuid-a'') = Inr (VObj fmempty)"
    by (simp add: remote_attributes_def resource_id_def jsget_def)
  have h2: "\<not> truthy (opt_get (VObj fmempty) ''drupal_internal__id'')"
    by (simp add: jsget_def)
  from splice_skips_without_identifier[OF h1 h2,
      of "fmupd ''owner'' (resource_id ''uuid-a'') fmempty" "''owner''"] h1 h2
  show ?thesis by (simp add: jsget_def)
qed

text \<open>With the identifier, the metadata goes onto the resource identifier.\<close>

lemma splice_merges_with_identifier:
  "splice_metadata (fmupd ''owner'' (resource_id ''uuid-a'') fmempty) ''owner''
     (VObj (fmupd ''id'' (VStr ''uuid-a'') (fmupd ''meta'' (VObj (fmupd ''remote'' (VObj (fmupd ''meta''
        (VObj (fmupd ''attributes'' (VObj (fmupd ''drupal_internal__id'' (VNum 7)
           (fmupd ''drupal_internal__revision_id'' (VNum 9) fmempty))) fmempty)) fmempty)) fmempty))
        fmempty))) =
   Inr (assoc ''meta'' (VObj (fmupd ''target_revision_id'' (VNum 9)
          (fmupd ''drupal_internal__target_id'' (VNum 7) fmempty))) (resource_id ''uuid-a''))"
  by (simp add: splice_metadata_def remote_attributes_def jsget_def resource_id_def Let_def)

text \<open>
  C7. A dependent commit resolves to the \<^verbatim>\<open>value\<close> of its sync, which is \<^verbatim>\<open>undefined\<close>
  when the sync returns no data. Such a response carries no identifier, but the callback
  does not return the relationship field: \<^verbatim>\<open>response.meta\<close> is read without a guard,
  where the rest of the chain has one, and raises a TypeError. The same holds for
  \<^verbatim>\<open>null\<close>.
\<close>

theorem splice_throws_on_undefined_response:
  "splice_metadata flds relationship VUndefined = Inl TypeError \<and>
   splice_metadata flds relationship VNull = Inl TypeError"
  by (simp add: splice_metadata_def remote_attributes_def)

section \<open>Link\<close>

text \<open>
  C6. The relationship field changes from the identifier \<^verbatim>\<open>uuid-b\<close> to the identifier
  \<^verbatim>\<open>uuid-a\<close>, both valid. \<^verbatim>\<open>update\<close> calls \<^verbatim>\<open>checkout(entity, next.type, prev.id)\<close>: the
  satellite ends up backed by the revision of \<^verbatim>\<open>uuid-b\<close>, the previous target, not of
  \<^verbatim>\<open>uuid-a\<close>. When there is no previous value, as in the first call that \<^verbatim>\<open>link\<close> makes,
  \<^verbatim>\<open>prev.id\<close> raises a TypeError.
\<close>

theorem link_checks_out_previous_id:
  "map_sum id (\<lambda>e. map_option rev_id (revision_of e 1))
     (update_to_one demo_env 1 0 ''asset'' ''asset'' (resource_id ''uuid-a'') (resource_id ''uuid-b'')
        linked_source) = Inr (Some ''uuid-b'') \<and>
   update_to_one demo_env 1 0 ''asset'' ''asset'' (resource_id ''uuid-a'') VUndefined linked_source
     = Inl TypeError"
  by (simp add: update_to_one_def set_dependencies_def demo_env_def linked_source_def
      resource_id_def validate_def jsget_def checkout_def createEntity_def push_task_def
      revision_of_def Let_def)

section \<open>Listeners\<close>

lemma forEach_safeCall_calls_all:
  "fst (forEach_safeCall ls v (called, console)) = called + length ls"
  by (induction ls arbitrary: called console) auto

text \<open>
  Through \<^verbatim>\<open>safeCall\<close> every listener is called and nothing is thrown: in \<^verbatim>\<open>syncHandler\<close> a
  throwing listener is logged and the next one is called.
\<close>

lemma safe_listener_call_continues:
  "syncHandler_notify fmempty [throwing, quiet] (Some counter_entity) =
     (counter_entity, 2, [VStr ''boom''])"
  by (simp add: syncHandler_notify_def throwing_def quiet_def safeCall_def emit_def emit_fields_def
    counter_entity_def jsget_def fmdrop_fmupd)

text \<open>
  C8. Three of the five notification points call the listeners directly. With a throwing
  listener registered before a quiet one, the continuation of \<^verbatim>\<open>commit\<close>, the continuation
  of the load task of \<^verbatim>\<open>checkout\<close> and the last continuation of \<^verbatim>\<open>checkoutCollection\<close>
  each call one listener and end with the exception; in the collection the members'
  transactions are not replayed.
\<close>

theorem direct_listener_call_propagates:
  "commit_synced [throwing, quiet] (Some counter_entity) = (1, Inl (Thrown (VStr ''boom''))) \<and>
   checkout_synced fmempty [throwing, quiet] [] (Some counter_entity) =
     (fmempty, 1, Inl (Thrown (VStr ''boom''))) \<and>
   collection_synced [throwing, quiet] (VArr []) [(counter_entity, [set_field ''n'' (VNum 5)])] =
     (1, Inl (Thrown (VStr ''boom'')))"
  by (simp add: commit_synced_def checkout_synced_def collection_synced_def throwing_def
      quiet_def replay_def emit_def emit_fields_def jsget_def)

section \<open>Drop\<close>

lemma findIndex_from_none: "\<forall>x \<in> set xs. \<not> P x \<Longrightarrow> findIndex_from P xs i = - 1"
  by (induction xs arbitrary: i) auto

lemma js_splice_last: "xs \<noteq> [] \<Longrightarrow> js_splice (- 1) (Suc 0) xs = butlast xs"
  by (cases xs rule: rev_cases) (auto simp: js_splice_def Let_def)

lemma js_splice_last_empty: "js_splice (- 1) (Suc 0) [] = []"
  by (simp add: js_splice_def)

lemma drop_entity_absent:
  assumes "collections e c = Some col"
    and "\<forall>item \<in> set (col_state col). item_id e item \<noteq> ident"
  shows "drop_entity e c ident =
     Inr (None, e\<lparr> collections := (collections e)(c \<mapsto> col\<lparr> col_state := butlast (col_state col) \<rparr>) \<rparr>)"
proof -
  have i: "findIndex (\<lambda>item. item_id e item = ident) (col_state col) = - 1"
    using assms(2) by (simp add: findIndex_def findIndex_from_none)
  have s: "js_splice (- 1) (Suc 0) (col_state col) = butlast (col_state col)"
    by (cases "col_state col = []") (simp_all add: js_splice_last js_splice_last_empty)
  show ?thesis using assms(1) by (simp add: drop_entity_def i s js_index_def Let_def)
qed

lemma findIndex_from_found:
  "P x \<Longrightarrow> \<forall>y \<in> set xs. \<not> P y \<Longrightarrow> findIndex_from P (xs @ x # ys) i = i + int (length xs)"
  by (induction xs arbitrary: i) auto

lemma js_splice_at: "js_splice (int (length xs)) (Suc 0) (xs @ x # ys) = xs @ ys"
  by (simp add: js_splice_def Let_def)

lemma drop_entity_present:
  assumes "collections e c = Some col"
    and "col_state col = xs @ x # ys"
    and "item_id e x = ident"
    and "\<forall>item \<in> set xs. item_id e item \<noteq> ident"
  shows "drop_entity e c ident =
     Inr (Some x, e\<lparr> collections := (collections e)(c \<mapsto> col\<lparr> col_state := xs @ ys \<rparr>) \<rparr>)"
proof -
  have i: "findIndex (\<lambda>item. item_id e item = ident) (xs @ x # ys) = int (length xs)"
    using assms(3,4) findIndex_from_found[of "\<lambda>item. item_id e item = ident" x xs ys 0]
    by (simp add: findIndex_def)
  show ?thesis using assms(1,2) by (simp add: drop_entity_def i js_splice_at js_index_def Let_def)
qed

text \<open>
  C10. In a collection whose members have the ids \<^verbatim>\<open>a1\<close> and \<^verbatim>\<open>a2\<close>, dropping the id
  \<^verbatim>\<open>zz\<close> finds the index \<^verbatim>\<open>-1\<close>; \<^verbatim>\<open>splice(-1, 1)\<close> removes the last member, and the
  result is \<^verbatim>\<open>undefined\<close>.
\<close>

theorem drop_unknown_id_removes_last_member:
  "map_sum id (\<lambda>(itemRef, e). (itemRef, map_option col_state (collections e 0)))
     (drop_entity two_members 0 (VStr ''zz'')) = Inr (None, Some [1])"
  by (simp add: drop_entity_def two_members_def findIndex_def item_id_def revision_of_def
      member_revision_def jsget_fmupd js_index_def js_splice_def Let_def)

end
